theory Spec2Isabelle
  imports Main
begin

section \<open>Exceptions\<close>

text \<open>
  The exceptions that occur in \<^verbatim>\<open>wagtail/admin/utils.py\<close>. All of them are subclasses of
  Python's \<^verbatim>\<open>Exception\<close>, so the handler \<^verbatim>\<open>except Exception\<close> of
  \<^verbatim>\<open>send_notification\<close> catches each of them when it is raised inside the
  \<^verbatim>\<open>try\<close> block. \<open>Failure\<close> stands for whatever the template engine or the mail
  backend raises (a missing template, an SMTP error).
\<close>

datatype exn =
    DoesNotExist
  | PermissionDenied
  | UnboundLocalError string
  | AttributeError string
  | Failure string

section \<open>Data model\<close>

text \<open>
  Modelled from the spec: \<^verbatim>\<open>wagtail.users.models.UserProfile\<close> is not part of the source
  file. The spec gives every user a preferred language and one notification flag per
  notification kind; \<^verbatim>\<open>UserProfile.get_for_user(recipient)\<close> and
  \<^verbatim>\<open>recipient.wagtail_userprofile\<close> both read the profile stored with the user.
\<close>

record UserProfile =
  submitted_notifications :: bool
  approved_notifications :: bool
  rejected_notifications :: bool
  preferred_language :: string

record user =
  pk :: nat
  email :: string
  is_active :: bool
  is_superuser :: bool
  groups :: "nat list"
  wagtail_userprofile :: UserProfile

text \<open>
  Modelled from the spec: the two accessors of \<^verbatim>\<open>UserProfile\<close>, whose code is not in
  the source file, read the profile and its preferred language.
\<close>

definition get_for_user :: "user \<Rightarrow> UserProfile" where
  "get_for_user u = wagtail_userprofile u"

definition get_preferred_language :: "UserProfile \<Rightarrow> string" where
  "get_preferred_language p = preferred_language p"

text \<open>
  Modelled from the spec: the models \<^verbatim>\<open>Page\<close>, \<^verbatim>\<open>GroupPagePermission\<close> and
  \<^verbatim>\<open>PageRevision\<close> of \<^verbatim>\<open>wagtail.core.models\<close> are not part of the source file. A page
  carries its primary key and the primary keys of its ancestors (what
  \<^verbatim>\<open>page.get_ancestors()\<close> yields, root first); a permission grant associates a group, a
  page and a permission type; a revision has an id, a page and, as the spec gives it, a
  submitting user. A revision whose submitter has been deleted (a null foreign key) is
  outside this model.
\<close>

record page =
  page_pk :: nat
  get_ancestors :: "nat list"

record GroupPagePermission =
  gpp_group :: nat
  gpp_page :: nat
  permission_type :: string

record PageRevision =
  revision_id :: nat
  revision_page :: page
  revision_user :: user

record database =
  users :: "user list"
  group_page_permissions :: "GroupPagePermission list"
  page_revisions :: "PageRevision list"

text \<open>
  The Django settings object, restricted to the four attributes the file reads. \<open>None\<close>
  means that the attribute is not set (\<^verbatim>\<open>hasattr\<close> is false, \<^verbatim>\<open>getattr\<close> yields
  its default).
\<close>

record settings =
  WAGTAILADMIN_NOTIFICATION_INCLUDE_SUPERUSERS :: "bool option"
  WAGTAILADMIN_NOTIFICATION_USE_HTML :: "bool option"
  WAGTAILADMIN_NOTIFICATION_FROM_EMAIL :: "string option"
  DEFAULT_FROM_EMAIL :: "string option"

definition getattr_default :: "'a option \<Rightarrow> 'a \<Rightarrow> 'a" where
  "getattr_default attr d = (case attr of None \<Rightarrow> d | Some v \<Rightarrow> v)"

section \<open>Recipient resolution: \<^verbatim>\<open>users_with_page_permission\<close>\<close>

text \<open>
  The query \<^verbatim>\<open>User.objects.filter(is_active=True).filter(q).distinct()\<close> joins every user
  with the page permissions of the user's groups. A user without a group, and a group
  without a page permission, give a row with no permission (\<open>None\<close>), which only the
  superuser disjunct can match. \<^verbatim>\<open>distinct()\<close> removes the repeated rows of the join.
  The order of the rows is the order of the user table.
\<close>

definition permissions_of_group :: "database \<Rightarrow> nat \<Rightarrow> GroupPagePermission option list" where
  "permissions_of_group db g =
     (let ps = filter (\<lambda>p. gpp_group p = g) (group_page_permissions db)
      in if ps = [] then [None] else map Some ps)"

definition joined_rows :: "database \<Rightarrow> user \<Rightarrow> (user \<times> GroupPagePermission option) list" where
  "joined_rows db u =
     (if groups u = [] then [(u, None)]
      else map (\<lambda>p. (u, p)) (concat (map (permissions_of_group db) (groups u))))"

definition permission_in :: "GroupPagePermission list \<Rightarrow> GroupPagePermission option \<Rightarrow> bool" where
  "permission_in perm p = (case p of None \<Rightarrow> False | Some x \<Rightarrow> x \<in> set perm)"

definition users_with_page_permission ::
    "database \<Rightarrow> page \<Rightarrow> string \<Rightarrow> bool \<Rightarrow> user list" where
  "users_with_page_permission db pg perm_type include_superusers =
     (let ancestors_and_self = get_ancestors pg @ [page_pk pg];
          perm = filter (\<lambda>p. permission_type p = perm_type \<and> gpp_page p \<in> set ancestors_and_self)
                   (group_page_permissions db);
          q = (\<lambda>(u, p). if include_superusers
                          then permission_in perm p \<or> is_superuser u
                          else permission_in perm p)
      in remdups (map fst (filter q
           (concat (map (joined_rows db) (filter is_active (users db)))))))"

section \<open>Mail: \<^verbatim>\<open>send_mail\<close>\<close>

datatype connection =
  Connection (conn_username: "string option") (conn_password: "string option")
    (conn_fail_silently: "bool option")

definition get_connection :: "string option \<Rightarrow> string option \<Rightarrow> bool option \<Rightarrow> connection" where
  "get_connection username password fail_silently = Connection username password fail_silently"

record EmailMultiAlternatives =
  mail_subject :: string
  mail_body :: string
  mail_from_email :: string
  mail_to :: "string list"
  mail_connection :: connection
  mail_headers :: "(string \<times> string) list"
  mail_alternatives :: "(string \<times> string) list"

text \<open>The keyword arguments that \<^verbatim>\<open>send_mail\<close> looks up in \<^verbatim>\<open>kwargs\<close>.\<close>

record mail_kwargs =
  kw_connection :: "connection option"
  kw_auth_user :: "string option"
  kw_auth_password :: "string option"
  kw_fail_silently :: "bool option"
  kw_html_message :: "string option"

definition no_kwargs :: mail_kwargs where
  "no_kwargs = \<lparr>kw_connection = None, kw_auth_user = None, kw_auth_password = None,
                 kw_fail_silently = None, kw_html_message = None\<rparr>"

record template_context =
  ctx_revision :: PageRevision
  ctx_settings :: settings
  ctx_user :: "user option"

text \<open>
  What the function does to the outside world is recorded in a trace: the calls of the
  recipient resolver, of the template renderer (with the locale that is active at the
  call), of the mail transport and of the logger.
\<close>

datatype event =
    Resolve page string bool
  | Render string string template_context
  | Send EmailMultiAlternatives
  | Log string string

record world =
  active_locale :: string
  trace :: "event list"

definition emit :: "event \<Rightarrow> world \<Rightarrow> world" where
  "emit e w = w\<lparr>trace := trace w @ [e]\<rparr>"

text \<open>
  The external collaborators: the template engine, whose output depends on the template,
  the context and the active locale, and the mail backend behind \<^verbatim>\<open>mail.send()\<close>.
  Either may raise.
\<close>

record env =
  render_to_string :: "string \<Rightarrow> template_context \<Rightarrow> string \<Rightarrow> exn + string"
  mail_send :: "EmailMultiAlternatives \<Rightarrow> exn + nat"

text \<open>Python truthiness of an optional string: \<^verbatim>\<open>None\<close> and \<^verbatim>\<open>''\<close> are false.\<close>

definition truthy :: "string option \<Rightarrow> bool" where
  "truthy s = (case s of None \<Rightarrow> False | Some v \<Rightarrow> v \<noteq> [])"

text \<open>
  The constructor of Django's \<^verbatim>\<open>EmailMultiAlternatives\<close>, which \<^verbatim>\<open>send_mail\<close> calls, is
  not part of the source file. Of what it does the model keeps the step that decides the
  sender, \<^verbatim>\<open>self.from_email = from_email or settings.DEFAULT_FROM_EMAIL\<close>: an empty sender is
  replaced by the setting, and reading a setting that is not there raises
  \<^verbatim>\<open>AttributeError\<close>.
\<close>

definition EmailMultiAlternatives_init ::
    "settings \<Rightarrow> string \<Rightarrow> string \<Rightarrow> string \<Rightarrow> string list \<Rightarrow> connection
       \<Rightarrow> (string \<times> string) list \<Rightarrow> exn + EmailMultiAlternatives" where
  "EmailMultiAlternatives_init st subject body from_email to conn headers =
     (if from_email \<noteq> [] then
        Inr \<lparr>mail_subject = subject, mail_body = body, mail_from_email = from_email,
             mail_to = to, mail_connection = conn, mail_headers = headers,
             mail_alternatives = []\<rparr>
      else
        (case DEFAULT_FROM_EMAIL st of
           Some d \<Rightarrow>
             Inr \<lparr>mail_subject = subject, mail_body = body, mail_from_email = d,
                  mail_to = to, mail_connection = conn, mail_headers = headers,
                  mail_alternatives = []\<rparr>
         | None \<Rightarrow> Inl (AttributeError ''DEFAULT_FROM_EMAIL'')))"

text \<open>
  The message that \<^verbatim>\<open>send_mail\<close> builds: the sender is resolved, the connection is taken
  from the keyword arguments or opened, the message is constructed, and the HTML
  alternative is attached when it is given and not empty.
\<close>

definition send_mail_message ::
    "settings \<Rightarrow> string \<Rightarrow> string \<Rightarrow> string list \<Rightarrow> string option \<Rightarrow> mail_kwargs
       \<Rightarrow> exn + EmailMultiAlternatives" where
  "send_mail_message st subject message recipient_list from_email kwargs =
     (let from_email1 =
            (if \<not> truthy from_email then
               (case WAGTAILADMIN_NOTIFICATION_FROM_EMAIL st of
                  Some a \<Rightarrow> a
                | None \<Rightarrow>
                   (case DEFAULT_FROM_EMAIL st of
                      Some b \<Rightarrow> b
                    | None \<Rightarrow> ''webmaster@localhost''))
             else the from_email);
          conn = (case kw_connection kwargs of
                    Some c \<Rightarrow> c
                  | None \<Rightarrow> get_connection (kw_auth_user kwargs) (kw_auth_password kwargs)
                              (kw_fail_silently kwargs))
      in case EmailMultiAlternatives_init st subject message from_email1 recipient_list conn
                [(''Auto-Submitted'', ''auto-generated'')] of
           Inl e \<Rightarrow> Inl e
         | Inr mail \<Rightarrow>
             Inr (if truthy (kw_html_message kwargs)
                  then mail\<lparr>mail_alternatives :=
                         mail_alternatives mail @ [(the (kw_html_message kwargs), ''text/html'')]\<rparr>
                  else mail))"

text \<open>\<^verbatim>\<open>send_mail\<close> hands the message to the mail backend and returns what it returns.\<close>

definition send_mail ::
    "env \<Rightarrow> settings \<Rightarrow> string \<Rightarrow> string \<Rightarrow> string list \<Rightarrow> string option \<Rightarrow> mail_kwargs
       \<Rightarrow> world \<Rightarrow> (exn + nat) \<times> world" where
  "send_mail ev st subject message recipient_list from_email kwargs w =
     (case send_mail_message st subject message recipient_list from_email kwargs of
        Inl e \<Rightarrow> (Inl e, w)
      | Inr mail \<Rightarrow> (mail_send ev mail, emit (Send mail) w))"

section \<open>Notification dispatch: \<^verbatim>\<open>send_notification\<close>\<close>

definition PageRevision_get :: "database \<Rightarrow> nat \<Rightarrow> exn + PageRevision" where
  "PageRevision_get db i =
     (case find (\<lambda>r. revision_id r = i) (page_revisions db) of
        None \<Rightarrow> Inl DoesNotExist
      | Some r \<Rightarrow> Inr r)"

text \<open>
  \<^verbatim>\<open>getattr(profile, notification + '_notifications')\<close>: the profile has the three flags and
  no other attribute of that form.
\<close>

definition getattr_notifications :: "UserProfile \<Rightarrow> string \<Rightarrow> exn + bool" where
  "getattr_notifications p name =
     (if name = ''submitted_notifications'' then Inr (submitted_notifications p)
      else if name = ''approved_notifications'' then Inr (approved_notifications p)
      else if name = ''rejected_notifications'' then Inr (rejected_notifications p)
      else Inl (AttributeError name))"

text \<open>
  The list comprehension that computes \<^verbatim>\<open>email_recipients\<close>. The conjunction is evaluated
  from left to right, so the profile is only read for a recipient with an email address
  who is not the excluded user.
\<close>

fun email_recipients_of :: "string \<Rightarrow> nat \<Rightarrow> user list \<Rightarrow> exn + user list" where
  "email_recipients_of notification excluded_user_id [] = Inr []"
| "email_recipients_of notification excluded_user_id (recipient # rest) =
     (if email recipient \<noteq> [] \<and> pk recipient \<noteq> excluded_user_id then
        (case getattr_notifications (get_for_user recipient) (notification @ ''_notifications'') of
           Inl e \<Rightarrow> Inl e
         | Inr flag \<Rightarrow>
            (case email_recipients_of notification excluded_user_id rest of
               Inl e \<Rightarrow> Inl e
             | Inr rs \<Rightarrow> Inr (if flag then recipient # rs else rs)))
      else email_recipients_of notification excluded_user_id rest)"

text \<open>
  The branch on the notification kind. \<open>None\<close> is the \<^verbatim>\<open>else\<close> branch, where the
  function returns \<^verbatim>\<open>False\<close>.
\<close>

definition get_recipients ::
    "database \<Rightarrow> settings \<Rightarrow> PageRevision \<Rightarrow> string \<Rightarrow> world \<Rightarrow> (user list \<times> world) option" where
  "get_recipients db st revision notification w =
     (if notification = ''submitted'' then
        (let include_superusers =
               getattr_default (WAGTAILADMIN_NOTIFICATION_INCLUDE_SUPERUSERS st) True
         in Some (users_with_page_permission db (revision_page revision) ''publish''
                    include_superusers,
                  emit (Resolve (revision_page revision) ''publish'' include_superusers) w))
      else if notification \<in> set [''rejected'', ''approved''] then
        Some ([revision_user revision], w)
      else None)"

text \<open>
  \<^verbatim>\<open>str.strip()\<close>, on the one-byte characters of \<^typ>\<open>string\<close>: the characters for which
  \<^verbatim>\<open>str.isspace\<close> holds are removed from both ends.
\<close>

definition isspace :: "char \<Rightarrow> bool" where
  "isspace c = (of_char c \<in> set [9, 10, 11, 12, 13, 28, 29, 30, 31, 32, 133, 160 :: nat])"

definition strip :: "string \<Rightarrow> string" where
  "strip s = rev (dropWhile isspace (rev (dropWhile isspace s)))"

definition render :: "env \<Rightarrow> string \<Rightarrow> template_context \<Rightarrow> world \<Rightarrow> (exn + string) \<times> world" where
  "render ev template c w =
     (render_to_string ev template c (active_locale w),
      emit (Render template (active_locale w) c) w)"

text \<open>
  The local variables of \<^verbatim>\<open>send_notification\<close> that live across the iterations of the
  loop. \<^verbatim>\<open>email_subject\<close> is unbound (\<open>None\<close>) until its first assignment.
\<close>

record locals =
  sent_count :: nat
  email_subject :: "string option"
  ctx :: template_context

text \<open>
  The statements of the \<^verbatim>\<open>try\<close> block after the \<^verbatim>\<open>with\<close> statement: the optional
  rendering of the HTML body, the call of \<^verbatim>\<open>send_mail\<close> and the count.
\<close>

definition send_rendered ::
    "env \<Rightarrow> settings \<Rightarrow> string \<Rightarrow> user \<Rightarrow> string \<Rightarrow> string \<Rightarrow> locals \<Rightarrow> world
       \<Rightarrow> (exn + unit) \<times> locals \<times> world" where
  "send_rendered ev st template_html recipient subject content l w =
     (case (if getattr_default (WAGTAILADMIN_NOTIFICATION_USE_HTML st) False then
              (case render ev template_html (ctx l) w of
                 (Inl e, w1) \<Rightarrow> (Inl e, w1)
               | (Inr html, w1) \<Rightarrow> (Inr (no_kwargs\<lparr>kw_html_message := Some html\<rparr>), w1))
            else (Inr no_kwargs, w)) of
        (Inl e, w1) \<Rightarrow> (Inl e, l, w1)
      | (Inr kwargs, w1) \<Rightarrow>
         (case send_mail ev st subject content [email recipient] None kwargs w1 of
            (Inl e, w2) \<Rightarrow> (Inl e, l, w2)
          | (Inr n, w2) \<Rightarrow> (Inr (), l\<lparr>sent_count := sent_count l + 1\<rparr>, w2)))"

text \<open>
  The \<^verbatim>\<open>try\<close> block for one recipient. \<^verbatim>\<open>override\<close> saves the active locale, activates
  the recipient's language and restores the saved locale when the \<^verbatim>\<open>with\<close> block is left,
  also by an exception.
\<close>

definition try_block ::
    "env \<Rightarrow> settings \<Rightarrow> string \<Rightarrow> user \<Rightarrow> locals \<Rightarrow> world \<Rightarrow> (exn + unit) \<times> locals \<times> world" where
  "try_block ev st notification recipient l w =
     (let template_subject = ''wagtailadmin/notifications/'' @ notification @ ''_subject.txt'';
          template_text = ''wagtailadmin/notifications/'' @ notification @ ''.txt'';
          template_html = ''wagtailadmin/notifications/'' @ notification @ ''.html'';
          l1 = l\<lparr>ctx := (ctx l)\<lparr>ctx_user := Some recipient\<rparr>\<rparr>;
          old_language = active_locale w;
          w1 = w\<lparr>active_locale := get_preferred_language (wagtail_userprofile recipient)\<rparr>
      in case render ev template_subject (ctx l1) w1 of
           (Inl e, w2) \<Rightarrow> (Inl e, l1, w2\<lparr>active_locale := old_language\<rparr>)
         | (Inr subject, w2) \<Rightarrow>
            (let l2 = l1\<lparr>email_subject := Some (strip subject)\<rparr>
             in case render ev template_text (ctx l2) w2 of
                  (Inl e, w3) \<Rightarrow> (Inl e, l2, w3\<lparr>active_locale := old_language\<rparr>)
                | (Inr content, w3) \<Rightarrow>
                   send_rendered ev st template_html recipient (strip subject) (strip content) l2
                     (w3\<lparr>active_locale := old_language\<rparr>)))"

text \<open>
  The loop over \<^verbatim>\<open>email_recipients\<close> with its exception handler. The handler reads
  \<^verbatim>\<open>email_subject\<close>; when that variable is still unbound, the read raises
  \<^verbatim>\<open>UnboundLocalError\<close> inside the handler, which nothing catches.
\<close>

fun send_loop ::
    "env \<Rightarrow> settings \<Rightarrow> string \<Rightarrow> user list \<Rightarrow> locals \<Rightarrow> world \<Rightarrow> (exn + locals) \<times> world" where
  "send_loop ev st notification [] l w = (Inr l, w)"
| "send_loop ev st notification (recipient # rest) l w =
     (case try_block ev st notification recipient l w of
        (Inr u, l1, w1) \<Rightarrow> send_loop ev st notification rest l1 w1
      | (Inl e, l1, w1) \<Rightarrow>
         (case email_subject l1 of
            None \<Rightarrow> (Inl (UnboundLocalError ''email_subject''), w1)
          | Some subject \<Rightarrow>
             send_loop ev st notification rest l1 (emit (Log subject (email recipient)) w1)))"

definition send_notification ::
    "env \<Rightarrow> database \<Rightarrow> settings \<Rightarrow> nat \<Rightarrow> string \<Rightarrow> nat \<Rightarrow> world \<Rightarrow> (exn + bool) \<times> world" where
  "send_notification ev db st page_revision_id notification excluded_user_id w =
     (case PageRevision_get db page_revision_id of
        Inl e \<Rightarrow> (Inl e, w)
      | Inr revision \<Rightarrow>
         (case get_recipients db st revision notification w of
            None \<Rightarrow> (Inr False, w)
          | Some (recipients, w1) \<Rightarrow>
             (case email_recipients_of notification excluded_user_id recipients of
                Inl e \<Rightarrow> (Inl e, w1)
              | Inr email_recipients \<Rightarrow>
                 if email_recipients = [] then (Inr True, w1)
                 else
                   (case send_loop ev st notification email_recipients
                           \<lparr>sent_count = 0, email_subject = None,
                            ctx = \<lparr>ctx_revision = revision, ctx_settings = st, ctx_user = None\<rparr>\<rparr>
                           w1 of
                      (Inl e, w2) \<Rightarrow> (Inl e, w2)
                    | (Inr l, w2) \<Rightarrow> (Inr (sent_count l = length email_recipients), w2)))))"

section \<open>View decorators\<close>

datatype response = HttpResponse string | HttpResponseRedirect string

record request =
  request_user :: user
  is_ajax :: bool

text \<open>
  A view takes the request, the positional arguments and the keyword arguments. The state
  of a request cycle holds the messages queued by \<^verbatim>\<open>messages.error\<close> and the calls of
  the decorated view that have been made.
\<close>

type_synonym 'a view = "request \<Rightarrow> 'a list \<Rightarrow> (string \<times> 'a) list \<Rightarrow> exn + response"

record 'a cycle =
  messages :: "string list"
  view_calls :: "(request \<times> 'a list \<times> (string \<times> 'a) list) list"

definition permission_denied ::
    "(string \<Rightarrow> string) \<Rightarrow> request \<Rightarrow> 'a cycle \<Rightarrow> (exn + response) \<times> 'a cycle" where
  "permission_denied ugettext rq c =
     (if is_ajax rq then (Inl PermissionDenied, c)
      else (Inr (HttpResponseRedirect ''wagtailadmin_home''),
            c\<lparr>messages := messages c @
                 [ugettext ''Sorry, you do not have permission to access this area.'']\<rparr>))"

definition user_passes_test ::
    "(string \<Rightarrow> string) \<Rightarrow> (user \<Rightarrow> bool) \<Rightarrow> 'a view \<Rightarrow> request \<Rightarrow> 'a list \<Rightarrow> (string \<times> 'a) list
       \<Rightarrow> 'a cycle \<Rightarrow> (exn + response) \<times> 'a cycle" where
  "user_passes_test ugettext test view_func rq args kwargs c =
     (if test (request_user rq) then
        (view_func rq args kwargs, c\<lparr>view_calls := view_calls c @ [(rq, args, kwargs)]\<rparr>)
      else permission_denied ugettext rq c)"

definition permission_required ::
    "(string \<Rightarrow> string) \<Rightarrow> (user \<Rightarrow> string \<Rightarrow> bool) \<Rightarrow> string \<Rightarrow> 'a view \<Rightarrow> request \<Rightarrow> 'a list
       \<Rightarrow> (string \<times> 'a) list \<Rightarrow> 'a cycle \<Rightarrow> (exn + response) \<times> 'a cycle" where
  "permission_required ugettext has_perm permission_name =
     user_passes_test ugettext (\<lambda>u. has_perm u permission_name)"

fun any_permission_test :: "(user \<Rightarrow> string \<Rightarrow> bool) \<Rightarrow> string list \<Rightarrow> user \<Rightarrow> bool" where
  "any_permission_test has_perm [] u = False"
| "any_permission_test has_perm (perm # perms) u =
     (if has_perm u perm then True else any_permission_test has_perm perms u)"

definition any_permission_required ::
    "(string \<Rightarrow> string) \<Rightarrow> (user \<Rightarrow> string \<Rightarrow> bool) \<Rightarrow> string list \<Rightarrow> 'a view \<Rightarrow> request \<Rightarrow> 'a list
       \<Rightarrow> (string \<times> 'a) list \<Rightarrow> 'a cycle \<Rightarrow> (exn + response) \<times> 'a cycle" where
  "any_permission_required ugettext has_perm perms =
     user_passes_test ugettext (any_permission_test has_perm perms)"

record policy =
  user_has_permission :: "user \<Rightarrow> string \<Rightarrow> bool"
  user_has_any_permission :: "user \<Rightarrow> string list \<Rightarrow> bool"

record PermissionPolicyChecker =
  checker_policy :: policy

definition require ::
    "(string \<Rightarrow> string) \<Rightarrow> PermissionPolicyChecker \<Rightarrow> string \<Rightarrow> 'a view \<Rightarrow> request \<Rightarrow> 'a list
       \<Rightarrow> (string \<times> 'a) list \<Rightarrow> 'a cycle \<Rightarrow> (exn + response) \<times> 'a cycle" where
  "require ugettext self action =
     user_passes_test ugettext (\<lambda>u. user_has_permission (checker_policy self) u action)"

definition require_any ::
    "(string \<Rightarrow> string) \<Rightarrow> PermissionPolicyChecker \<Rightarrow> string list \<Rightarrow> 'a view \<Rightarrow> request \<Rightarrow> 'a list
       \<Rightarrow> (string \<times> 'a) list \<Rightarrow> 'a cycle \<Rightarrow> (exn + response) \<times> 'a cycle" where
  "require_any ugettext self actions =
     user_passes_test ugettext (\<lambda>u. user_has_any_permission (checker_policy self) u actions)"

section \<open>Observations\<close>

text \<open>
  What the statements below read off a trace: the mails handed to the mail backend, how
  many of them the backend accepted, the templates rendered with the locale active at each
  rendering, and the number of recipients for whom the \<^verbatim>\<open>try\<close> block was entered (each
  entry renders the subject template once).
\<close>

definition sent_mails :: "world \<Rightarrow> EmailMultiAlternatives list" where
  "sent_mails w = concat (map (\<lambda>e. case e of Send m \<Rightarrow> [m] | _ \<Rightarrow> []) (trace w))"

definition delivered :: "env \<Rightarrow> world \<Rightarrow> nat" where
  "delivered ev w =
     length (filter (\<lambda>m. case mail_send ev m of Inl e \<Rightarrow> False | Inr n \<Rightarrow> True) (sent_mails w))"

definition render_locales :: "world \<Rightarrow> (string \<times> string) list" where
  "render_locales w =
     concat (map (\<lambda>e. case e of Render template locale c \<Rightarrow> [(template, locale)] | _ \<Rightarrow> [])
       (trace w))"

definition attempts :: "string \<Rightarrow> world \<Rightarrow> nat" where
  "attempts notification w =
     length (filter (\<lambda>(template, locale).
        template = ''wagtailadmin/notifications/'' @ notification @ ''_subject.txt'')
       (render_locales w))"

text \<open>
  A user is covered by a grant when one of the user's groups holds a page permission of the
  requested type on the page or on one of its ancestors.
\<close>

definition covered_by_grant :: "database \<Rightarrow> page \<Rightarrow> string \<Rightarrow> user \<Rightarrow> bool" where
  "covered_by_grant db pg perm_type u =
     list_ex (\<lambda>p. gpp_group p \<in> set (groups u) \<and> permission_type p = perm_type \<and>
                  gpp_page p \<in> set (get_ancestors pg @ [page_pk pg]))
       (group_page_permissions db)"

text \<open>The notification flag of a user for one of the three notification kinds.\<close>

definition notifications_enabled :: "string \<Rightarrow> user \<Rightarrow> bool" where
  "notifications_enabled notification u =
     (if notification = ''submitted'' then submitted_notifications (wagtail_userprofile u)
      else if notification = ''approved'' then approved_notifications (wagtail_userprofile u)
      else rejected_notifications (wagtail_userprofile u))"

text \<open>
  A decorated view guards the underlying view: when the test passes, its result is the
  result of the underlying view on the original arguments and exactly that one call is
  recorded; when it fails, its outcome is the outcome of \<^verbatim>\<open>permission_denied\<close> and no call
  is recorded.
\<close>

definition guards ::
    "(string \<Rightarrow> string) \<Rightarrow> bool \<Rightarrow> 'a view \<Rightarrow> request \<Rightarrow> 'a list \<Rightarrow> (string \<times> 'a) list \<Rightarrow> 'a cycle
       \<Rightarrow> (exn + response) \<times> 'a cycle \<Rightarrow> bool" where
  "guards ugettext passes view_func rq args kwargs c r =
     (if passes
      then fst r = view_func rq args kwargs \<and>
           view_calls (snd r) = view_calls c @ [(rq, args, kwargs)]
      else r = permission_denied ugettext rq c \<and> view_calls (snd r) = view_calls c)"

section \<open>Example data\<close>

text \<open>
  A small site: Alice submits revisions of a page whose parent carries a publish permission
  for Bob's group; Carol is an active superuser, Dave an inactive one. All four prefer
  French, while the locale active around the dispatch is English.
\<close>

definition profile_fr :: UserProfile where
  "profile_fr = \<lparr>submitted_notifications = True, approved_notifications = True,
                  rejected_notifications = True, preferred_language = ''fr''\<rparr>"

definition alice :: user where
  "alice = \<lparr>pk = 10, email = ''alice@example.com'', is_active = True, is_superuser = False,
             groups = [], wagtail_userprofile = profile_fr\<rparr>"

definition bob :: user where
  "bob = \<lparr>pk = 20, email = ''bob@example.com'', is_active = True, is_superuser = False,
           groups = [5], wagtail_userprofile = profile_fr\<rparr>"

definition carol :: user where
  "carol = \<lparr>pk = 30, email = ''carol@example.com'', is_active = True, is_superuser = True,
             groups = [], wagtail_userprofile = profile_fr\<rparr>"

definition dave :: user where
  "dave = \<lparr>pk = 40, email = ''dave@example.com'', is_active = False, is_superuser = True,
            groups = [], wagtail_userprofile = profile_fr\<rparr>"

definition page_p :: page where
  "page_p = \<lparr>page_pk = 3, get_ancestors = [2]\<rparr>"

definition db0 :: database where
  "db0 = \<lparr>users = [alice, bob, carol, dave],
          group_page_permissions =
            [\<lparr>gpp_group = 5, gpp_page = 2, permission_type = ''publish''\<rparr>],
          page_revisions =
            [\<lparr>revision_id = 11, revision_page = page_p, revision_user = alice\<rparr>,
             \<lparr>revision_id = 12, revision_page = page_p, revision_user = dave\<rparr>]\<rparr>"

definition st0 :: settings where
  "st0 = \<lparr>WAGTAILADMIN_NOTIFICATION_INCLUDE_SUPERUSERS = None,
          WAGTAILADMIN_NOTIFICATION_USE_HTML = None,
          WAGTAILADMIN_NOTIFICATION_FROM_EMAIL = None, DEFAULT_FROM_EMAIL = None\<rparr>"

definition st_html :: settings where
  "st_html = st0\<lparr>WAGTAILADMIN_NOTIFICATION_USE_HTML := Some True\<rparr>"

text \<open>
  Collaborators: a renderer that returns the locale and the template name, one that fails
  on the subject template of the approval notification, and one that fails on the subject
  template of the submission notification for Bob only. The mail backend accepts every
  message.
\<close>

definition env_ok :: env where
  "env_ok = \<lparr>render_to_string = (\<lambda>t c loc. Inr (loc @ '':'' @ t)),
             mail_send = (\<lambda>m. Inr 1)\<rparr>"

definition env_bad :: env where
  "env_bad = \<lparr>render_to_string = (\<lambda>t c loc.
       if t = ''wagtailadmin/notifications/approved_subject.txt''
       then Inl (Failure ''TemplateDoesNotExist'') else Inr (loc @ '':'' @ t)),
     mail_send = (\<lambda>m. Inr 1)\<rparr>"

definition env_bad_bob :: env where
  "env_bad_bob = \<lparr>render_to_string = (\<lambda>t c loc.
       if t = ''wagtailadmin/notifications/submitted_subject.txt'' \<and> ctx_user c = Some bob
       then Inl (Failure ''TemplateSyntaxError'') else Inr (loc @ '':'' @ t)),
     mail_send = (\<lambda>m. Inr 1)\<rparr>"

definition w0 :: world where
  "w0 = \<lparr>active_locale = ''en'', trace = []\<rparr>"

definition view_ok :: "nat view" where
  "view_ok rq args kwargs = Inr (HttpResponse ''ok'')"

definition cycle0 :: "nat cycle" where
  "cycle0 = \<lparr>messages = [], view_calls = []\<rparr>"

definition request_of :: "user \<Rightarrow> bool \<Rightarrow> request" where
  "request_of u ajax = \<lparr>request_user = u, is_ajax = ajax\<rparr>"

section \<open>Reading the trace\<close>

lemma sent_mails_emit_Send: "sent_mails (emit (Send m) w) = sent_mails w @ [m]"
  by (simp add: sent_mails_def emit_def)

lemma sent_mails_emit_other:
  "sent_mails (emit (Render t loc c) w) = sent_mails w"
  "sent_mails (emit (Log s a) w) = sent_mails w"
  "sent_mails (emit (Resolve pg k b) w) = sent_mails w"
  by (simp_all add: sent_mails_def emit_def)

lemma sent_mails_locale: "sent_mails (w\<lparr>active_locale := x\<rparr>) = sent_mails w"
  by (simp add: sent_mails_def)

lemma delivered_simps:
  "delivered ev (w\<lparr>active_locale := x\<rparr>) = delivered ev w"
  "delivered ev (emit (Render t loc c) w) = delivered ev w"
  "delivered ev (emit (Log s a) w) = delivered ev w"
  "delivered ev (emit (Resolve pg k b) w) = delivered ev w"
  "delivered ev (emit (Send m) w) =
     delivered ev w + (case mail_send ev m of Inl e \<Rightarrow> 0 | Inr n \<Rightarrow> 1)"
  by (simp_all add: delivered_def sent_mails_locale sent_mails_emit_other sent_mails_emit_Send
      split: sum.splits)

lemma render_locales_simps:
  "render_locales (w\<lparr>active_locale := x\<rparr>) = render_locales w"
  "render_locales (emit (Render t loc c) w) = render_locales w @ [(t, loc)]"
  "render_locales (emit (Log s a) w) = render_locales w"
  "render_locales (emit (Resolve pg k b) w) = render_locales w"
  "render_locales (emit (Send m) w) = render_locales w"
  by (simp_all add: render_locales_def emit_def)

section \<open>The recipient resolver\<close>

lemma permissions_of_group_match:
  "(\<exists>p \<in> set (permissions_of_group db g). permission_in perm p) \<longleftrightarrow>
   (\<exists>x \<in> set (group_page_permissions db). gpp_group x = g \<and> x \<in> set perm)"
proof (cases "filter (\<lambda>p. gpp_group p = g) (group_page_permissions db) = []")
  case True
  then have "\<forall>x \<in> set (group_page_permissions db). gpp_group x \<noteq> g"
    by (simp add: filter_empty_conv)
  with True show ?thesis
    by (auto simp: permissions_of_group_def permission_in_def)
next
  case False
  then show ?thesis
    by (auto simp: permissions_of_group_def permission_in_def)
qed

lemma joined_rows_match:
  "(\<exists>r \<in> set (joined_rows db u). permission_in perm (snd r)) \<longleftrightarrow>
   (\<exists>x \<in> set (group_page_permissions db). gpp_group x \<in> set (groups u) \<and> x \<in> set perm)"
proof (cases "groups u = []")
  case True
  then show ?thesis by (simp add: joined_rows_def permission_in_def)
next
  case False
  then have "(\<exists>r \<in> set (joined_rows db u). permission_in perm (snd r)) \<longleftrightarrow>
      (\<exists>g \<in> set (groups u). \<exists>p \<in> set (permissions_of_group db g). permission_in perm p)"
    by (auto simp: joined_rows_def)
  then show ?thesis by (auto simp: permissions_of_group_match)
qed

lemma permissions_of_group_nonempty: "permissions_of_group db g \<noteq> []"
  by (simp add: permissions_of_group_def Let_def)

lemma joined_rows_nonempty: "joined_rows db u \<noteq> []"
proof (cases "groups u")
  case Nil
  then show ?thesis by (simp add: joined_rows_def)
next
  case (Cons g gs)
  then show ?thesis by (simp add: joined_rows_def permissions_of_group_nonempty)
qed

lemma joined_rows_user: "r \<in> set (joined_rows db u) \<Longrightarrow> fst r = u"
  by (auto simp: joined_rows_def split: if_splits)

lemma covered_by_grant_iff:
  "covered_by_grant db pg perm_type u \<longleftrightarrow>
   (\<exists>x \<in> set (group_page_permissions db). gpp_group x \<in> set (groups u) \<and>
      x \<in> set (filter (\<lambda>p. permission_type p = perm_type \<and>
                          gpp_page p \<in> set (get_ancestors pg @ [page_pk pg]))
                 (group_page_permissions db)))"
  by (auto simp: covered_by_grant_def list_ex_iff)

lemma joined_rows_exists:
  "(\<exists>r \<in> set (joined_rows db u). permission_in perm (snd r) \<or> (incl \<and> is_superuser u)) \<longleftrightarrow>
   ((\<exists>r \<in> set (joined_rows db u). permission_in perm (snd r)) \<or> (incl \<and> is_superuser u))"
proof -
  obtain r where "r \<in> set (joined_rows db u)"
    using joined_rows_nonempty [of db u] by (cases "joined_rows db u") auto
  then show ?thesis by blast
qed

text \<open>
  The users that \<^verbatim>\<open>users_with_page_permission\<close> returns are the active users who are
  covered by a grant or, when superusers are included, are superusers.
\<close>

lemma set_users_with_page_permission:
  "set (users_with_page_permission db pg perm_type incl) =
     {u \<in> set (users db). is_active u \<and>
        (covered_by_grant db pg perm_type u \<or> (incl \<and> is_superuser u))}"
  (is "?L = ?R")
proof (rule set_eqI)
  fix u
  let ?perm = "filter (\<lambda>p. permission_type p = perm_type \<and>
                          gpp_page p \<in> set (get_ancestors pg @ [page_pk pg]))
                 (group_page_permissions db)"
  let ?q = "\<lambda>r. permission_in ?perm (snd r) \<or> (incl \<and> is_superuser (fst r))"
  have q: "(\<lambda>(u, p). if incl then permission_in ?perm p \<or> is_superuser u
                       else permission_in ?perm p) = ?q"
    by (rule ext) (simp add: split_def)
  have L: "?L = fst ` {r \<in> (\<Union>v \<in> {v \<in> set (users db). is_active v}. set (joined_rows db v)). ?q r}"
    unfolding users_with_page_permission_def Let_def q by auto
  have "u \<in> ?L \<longleftrightarrow>
      (\<exists>v \<in> set (users db). is_active v \<and> (\<exists>r \<in> set (joined_rows db v). ?q r \<and> fst r = u))"
    unfolding L by force
  also have "\<dots> \<longleftrightarrow> (u \<in> set (users db) \<and> is_active u \<and>
         (\<exists>r \<in> set (joined_rows db u). permission_in ?perm (snd r) \<or> (incl \<and> is_superuser u)))"
    using joined_rows_user by (metis (no_types, lifting))
  also have "\<dots> \<longleftrightarrow> (u \<in> set (users db) \<and> is_active u \<and>
         ((\<exists>r \<in> set (joined_rows db u). permission_in ?perm (snd r)) \<or> (incl \<and> is_superuser u)))"
    by (simp only: joined_rows_exists)
  also have "\<dots> \<longleftrightarrow> u \<in> ?R"
    by (simp add: joined_rows_match covered_by_grant_iff)
  finally show "u \<in> ?L \<longleftrightarrow> u \<in> ?R" .
qed

lemma users_with_page_permission_distinct_pk:
  assumes "distinct (map pk (users db))"
  shows "distinct (map pk (users_with_page_permission db pg perm_type incl))"
proof -
  have "inj_on pk (set (users db))" using assms by (simp add: distinct_map)
  moreover have "set (users_with_page_permission db pg perm_type incl) \<subseteq> set (users db)"
    by (auto simp: set_users_with_page_permission)
  ultimately have "inj_on pk (set (users_with_page_permission db pg perm_type incl))"
    by (rule inj_on_subset)
  moreover have "distinct (users_with_page_permission db pg perm_type incl)"
    by (simp add: users_with_page_permission_def Let_def)
  ultimately show ?thesis by (simp add: distinct_map)
qed

text \<open>
  Claim C7, as amended. On a user table whose primary keys are unique, the resolver returns
  no user identity twice, for every page, permission type and flag; an \<^emph>\<open>active\<close>
  superuser who is not covered by a matching group grant is returned if and only if
  \<^verbatim>\<open>include_superusers\<close> is true; and an inactive user, superuser or not, is never
  returned. The claim says the equivalence of every superuser; the query filters on
  \<^verbatim>\<open>is_active=True\<close> first.
\<close>

theorem resolver_distinct_active_superusers:
  assumes "distinct (map pk (users db))"
  shows "distinct (map pk (users_with_page_permission db pg perm_type incl)) \<and>
    (\<forall>u \<in> set (users db).
       is_superuser u \<and> is_active u \<and> \<not> covered_by_grant db pg perm_type u \<longrightarrow>
         (u \<in> set (users_with_page_permission db pg perm_type incl) \<longleftrightarrow> incl)) \<and>
    (\<forall>u. \<not> is_active u \<longrightarrow> u \<notin> set (users_with_page_permission db pg perm_type incl))"
  using users_with_page_permission_distinct_pk [OF assms]
  by (simp add: set_users_with_page_permission)

theorem resolver_distinct_active_superusers_witness:
  "distinct (map pk (users db0)) \<and>
   distinct (map pk (users_with_page_permission db0 page_p ''publish'' True)) \<and>
   carol \<in> set (users_with_page_permission db0 page_p ''publish'' True) \<and>
   carol \<notin> set (users_with_page_permission db0 page_p ''publish'' False) \<and>
   \<not> is_active dave \<and>
   dave \<notin> set (users_with_page_permission db0 page_p ''publish'' True) \<and>
   dave \<notin> set (users_with_page_permission db0 page_p ''publish'' False)"
proof -
  have d: "distinct (map pk (users db0))"
    by (simp add: db0_def alice_def bob_def carol_def dave_def)
  have c: "carol \<in> set (users db0)" "is_superuser carol" "is_active carol"
    "\<not> covered_by_grant db0 page_p ''publish'' carol"
    by (simp_all add: db0_def carol_def covered_by_grant_def)
  have i: "\<not> is_active dave" by (simp add: dave_def)
  show ?thesis
    using d c i resolver_distinct_active_superusers [OF d, of page_p "''publish''" True]
      resolver_distinct_active_superusers [OF d, of page_p "''publish''" False]
    by blast
qed

text \<open>
  Dave is a superuser without a grant, superusers are included, and Dave is not among the
  recipients: he is inactive.
\<close>

theorem inactive_superuser_counterexample:
  "dave \<in> set (users db0) \<and> is_superuser dave \<and>
   \<not> covered_by_grant db0 page_p ''publish'' dave \<and>
   dave \<notin> set (users_with_page_permission db0 page_p ''publish'' True)"
  by (simp add: set_users_with_page_permission db0_def dave_def covered_by_grant_def)

section \<open>The sender of a mail\<close>

lemma send_mail_message_from:
  "send_mail_message st subject message recipient_list from_email kwargs = Inr m \<Longrightarrow>
   mail_from_email m =
     (if truthy from_email then the from_email
      else (case WAGTAILADMIN_NOTIFICATION_FROM_EMAIL st of
              Some a \<Rightarrow> if a \<noteq> [] then a else the (DEFAULT_FROM_EMAIL st)
            | None \<Rightarrow> (case DEFAULT_FROM_EMAIL st of
                         Some b \<Rightarrow> b
                       | None \<Rightarrow> ''webmaster@localhost'')))"
  by (auto simp: send_mail_message_def EmailMultiAlternatives_init_def Let_def truthy_def
      split: option.splits if_splits sum.splits)

lemma send_mail_message_to:
  "send_mail_message st subject message recipient_list from_email kwargs = Inr m \<Longrightarrow>
   mail_to m = recipient_list"
  by (auto simp: send_mail_message_def EmailMultiAlternatives_init_def Let_def
      split: option.splits if_splits sum.splits)

text \<open>
  No message is built only when the sender comes out empty and there is no
  \<^verbatim>\<open>DEFAULT_FROM_EMAIL\<close>: the notification sender is set to the empty string and the
  default is not set at all.
\<close>

lemma send_mail_message_built:
  "(\<exists>m. send_mail_message st subject message recipient_list from_email kwargs = Inr m) \<longleftrightarrow>
   \<not> (\<not> truthy from_email \<and> WAGTAILADMIN_NOTIFICATION_FROM_EMAIL st = Some [] \<and>
       DEFAULT_FROM_EMAIL st = None)"
  by (auto simp: send_mail_message_def EmailMultiAlternatives_init_def Let_def truthy_def
      split: option.splits if_splits sum.splits)

lemma sent_mails_send_mail:
  "sent_mails (snd (send_mail ev st subject message recipient_list from_email kwargs w)) =
     (case send_mail_message st subject message recipient_list from_email kwargs of
        Inl e \<Rightarrow> sent_mails w
      | Inr m \<Rightarrow> sent_mails w @ [m])"
  by (simp add: send_mail_def sent_mails_emit_Send split: sum.splits)

lemma send_mail_senders:
  assumes "\<not> (\<not> truthy from_email \<and> WAGTAILADMIN_NOTIFICATION_FROM_EMAIL st = Some [] \<and>
       DEFAULT_FROM_EMAIL st = None)"
  shows "map mail_from_email
           (sent_mails (snd (send_mail ev st subject message recipient_list from_email kwargs w))) =
         map mail_from_email (sent_mails w) @
           [if truthy from_email then the from_email
            else (case WAGTAILADMIN_NOTIFICATION_FROM_EMAIL st of
                    Some a \<Rightarrow> if a \<noteq> [] then a else the (DEFAULT_FROM_EMAIL st)
                  | None \<Rightarrow> (case DEFAULT_FROM_EMAIL st of
                               Some b \<Rightarrow> b
                             | None \<Rightarrow> ''webmaster@localhost''))]"
proof -
  obtain m where m: "send_mail_message st subject message recipient_list from_email kwargs = Inr m"
    using assms send_mail_message_built [of st subject message recipient_list from_email kwargs]
    by blast
  show ?thesis
    using send_mail_message_from [OF m] by (simp add: sent_mails_send_mail m)
qed

text \<open>
  Claim C8, as amended. When \<^verbatim>\<open>send_mail\<close> is called without a sender (\<^verbatim>\<open>from_email\<close> is
  \<^verbatim>\<open>None\<close> or empty), the message handed to the mail backend has as its sender the
  setting \<^verbatim>\<open>WAGTAILADMIN_NOTIFICATION_FROM_EMAIL\<close> if it is set and not empty; else the
  setting \<^verbatim>\<open>DEFAULT_FROM_EMAIL\<close> if it is set, whatever its value; else, when neither
  setting is set, \<^verbatim>\<open>webmaster@localhost\<close>. The claim speaks of settings that are present:
  a notification sender that is present and empty is handed to the message constructor,
  which replaces an empty sender by \<^verbatim>\<open>DEFAULT_FROM_EMAIL\<close>, and a default that is present
  and empty is used as it is, not replaced by the hardcoded address.
\<close>

theorem send_mail_sender_precedence:
  assumes "\<not> truthy from_email"
  shows "(\<forall>notification_sender.
            WAGTAILADMIN_NOTIFICATION_FROM_EMAIL st = Some notification_sender \<and>
            notification_sender \<noteq> [] \<longrightarrow>
            map mail_from_email (sent_mails (snd (send_mail ev st subject message recipient_list
                from_email kwargs w))) =
              map mail_from_email (sent_mails w) @ [notification_sender]) \<and>
         (\<forall>default_sender.
            (WAGTAILADMIN_NOTIFICATION_FROM_EMAIL st = None \<or>
             WAGTAILADMIN_NOTIFICATION_FROM_EMAIL st = Some []) \<and>
            DEFAULT_FROM_EMAIL st = Some default_sender \<longrightarrow>
            map mail_from_email (sent_mails (snd (send_mail ev st subject message recipient_list
                from_email kwargs w))) =
              map mail_from_email (sent_mails w) @ [default_sender]) \<and>
         (WAGTAILADMIN_NOTIFICATION_FROM_EMAIL st = None \<and> DEFAULT_FROM_EMAIL st = None \<longrightarrow>
            map mail_from_email (sent_mails (snd (send_mail ev st subject message recipient_list
                from_email kwargs w))) =
              map mail_from_email (sent_mails w) @ [''webmaster@localhost''])"
  using assms
    send_mail_senders [of from_email st ev subject message recipient_list kwargs w]
  by auto

theorem send_mail_sender_precedence_witness:
  "\<not> truthy None \<and> \<not> truthy (Some []) \<and>
   map mail_from_email (sent_mails (snd (send_mail env_ok st0 ''s'' ''b'' [''bob@example.com'']
      None no_kwargs w0))) = [''webmaster@localhost''] \<and>
   map mail_from_email (sent_mails (snd (send_mail env_ok
      (st0\<lparr>DEFAULT_FROM_EMAIL := Some ''site@example.com''\<rparr>) ''s'' ''b'' [''bob@example.com'']
      (Some []) no_kwargs w0))) = [''site@example.com''] \<and>
   map mail_from_email (sent_mails (snd (send_mail env_ok
      (st0\<lparr>DEFAULT_FROM_EMAIL := Some ''site@example.com'',
            WAGTAILADMIN_NOTIFICATION_FROM_EMAIL := Some ''cms@example.com''\<rparr>)
      ''s'' ''b'' [''bob@example.com''] None no_kwargs w0))) = [''cms@example.com'']"
proof -
  have n: "\<not> truthy None" and e: "\<not> truthy (Some [])" by (simp_all add: truthy_def)
  have w: "sent_mails w0 = []" by (simp add: sent_mails_def w0_def)
  show ?thesis
    using n e
      send_mail_sender_precedence [OF n, of st0 env_ok "''s''" "''b''" "[''bob@example.com'']"
        no_kwargs w0]
      send_mail_sender_precedence [OF e,
        of "st0\<lparr>DEFAULT_FROM_EMAIL := Some ''site@example.com''\<rparr>" env_ok "''s''" "''b''"
        "[''bob@example.com'']" no_kwargs w0]
      send_mail_sender_precedence [OF n,
        of "st0\<lparr>DEFAULT_FROM_EMAIL := Some ''site@example.com'',
              WAGTAILADMIN_NOTIFICATION_FROM_EMAIL := Some ''cms@example.com''\<rparr>" env_ok
        "''s''" "''b''" "[''bob@example.com'']" no_kwargs w0]
    by (simp add: w st0_def)
qed

text \<open>
  The notification sender is present and empty, and the mail goes out from the default
  sender; only the default is present, it is empty, and the mail goes out with the empty
  sender, not from \<^verbatim>\<open>webmaster@localhost\<close>.
\<close>

theorem present_empty_sender_counterexample:
  "map mail_from_email (sent_mails (snd (send_mail env_ok
      (st0\<lparr>WAGTAILADMIN_NOTIFICATION_FROM_EMAIL := Some [],
            DEFAULT_FROM_EMAIL := Some ''site@example.com''\<rparr>)
      ''s'' ''b'' [''bob@example.com''] None no_kwargs w0))) = [''site@example.com''] \<and>
   map mail_from_email (sent_mails (snd (send_mail env_ok
      (st0\<lparr>DEFAULT_FROM_EMAIL := Some []\<rparr>)
      ''s'' ''b'' [''bob@example.com''] None no_kwargs w0))) = [[]]"
  by (simp add: send_mail_def send_mail_message_def EmailMultiAlternatives_init_def Let_def
      truthy_def st0_def w0_def sent_mails_def emit_def no_kwargs_def)

text \<open>
  Claim C10. When a non-empty \<^verbatim>\<open>from_email\<close> is passed, \<^verbatim>\<open>send_mail\<close> does the same
  whatever the settings are, and the sender of the message is the argument, unchanged.
\<close>

theorem send_mail_explicit_sender:
  assumes "from_email = Some sender" and "sender \<noteq> []"
  shows "send_mail ev st subject message recipient_list from_email kwargs w =
           send_mail ev st' subject message recipient_list from_email kwargs w \<and>
         map mail_from_email
           (sent_mails (snd (send_mail ev st subject message recipient_list from_email kwargs w))) =
         map mail_from_email (sent_mails w) @ [sender]"
proof -
  have t: "truthy from_email" using assms by (simp add: truthy_def)
  then have "send_mail_message st subject message recipient_list from_email kwargs =
           send_mail_message st' subject message recipient_list from_email kwargs"
    using assms by (simp add: send_mail_message_def EmailMultiAlternatives_init_def)
  then have "send_mail ev st subject message recipient_list from_email kwargs w =
           send_mail ev st' subject message recipient_list from_email kwargs w"
    by (simp add: send_mail_def)
  then show ?thesis
    using t assms send_mail_senders [of from_email st ev subject message recipient_list kwargs w]
    by simp
qed

theorem send_mail_explicit_sender_witness:
  "Some ''me@example.com'' = Some ''me@example.com'' \<and> ''me@example.com'' \<noteq> [] \<and>
   map mail_from_email (sent_mails (snd (send_mail env_ok
      (st0\<lparr>DEFAULT_FROM_EMAIL := Some ''site@example.com'',
            WAGTAILADMIN_NOTIFICATION_FROM_EMAIL := Some ''cms@example.com''\<rparr>)
      ''s'' ''b'' [''bob@example.com''] (Some ''me@example.com'') no_kwargs w0))) =
     [''me@example.com'']"
proof -
  have a: "Some ''me@example.com'' = Some ''me@example.com''" and b: "''me@example.com'' \<noteq> []"
    by simp_all
  have w: "sent_mails w0 = []" by (simp add: sent_mails_def w0_def)
  show ?thesis
    using send_mail_explicit_sender [OF a b, of env_ok
        "st0\<lparr>DEFAULT_FROM_EMAIL := Some ''site@example.com'',
              WAGTAILADMIN_NOTIFICATION_FROM_EMAIL := Some ''cms@example.com''\<rparr>" "''s''" "''b''"
        "[''bob@example.com'']" no_kwargs w0]
    by (simp add: w)
qed

section \<open>The view decorators\<close>

lemma permission_denied_no_call: "view_calls (snd (permission_denied ugettext rq c)) = view_calls c"
  by (simp add: permission_denied_def)

lemma any_permission_test_iff:
  "any_permission_test has_perm perms u \<longleftrightarrow> (\<exists>perm \<in> set perms. has_perm u perm)"
  by (induction perms) auto

lemma user_passes_test_guards:
  "guards ugettext (test (request_user rq)) view_func rq args kwargs c
     (user_passes_test ugettext test view_func rq args kwargs c)"
  by (simp add: guards_def user_passes_test_def permission_denied_no_call)

text \<open>
  Claim C9. For every test, view and request, the view made by \<^verbatim>\<open>user_passes_test\<close>
  calls the underlying view, with the original arguments, exactly when the test holds of
  \<^verbatim>\<open>request.user\<close>, and otherwise gives the permission-denied response (the outcome of
  \<^verbatim>\<open>permission_denied(request)\<close>: a redirect with an error message, or the exception
  \<^verbatim>\<open>PermissionDenied\<close> for an AJAX request) without calling the view. The same holds of
  \<^verbatim>\<open>permission_required\<close>, \<^verbatim>\<open>any_permission_required\<close> and the two methods of
  \<^verbatim>\<open>PermissionPolicyChecker\<close>, each with its own test.
\<close>

theorem decorators_guard_view:
  "guards ugettext (test (request_user rq)) view_func rq args kwargs c
     (user_passes_test ugettext test view_func rq args kwargs c) \<and>
   guards ugettext (has_perm (request_user rq) permission_name) view_func rq args kwargs c
     (permission_required ugettext has_perm permission_name view_func rq args kwargs c) \<and>
   guards ugettext (\<exists>perm \<in> set perms. has_perm (request_user rq) perm) view_func rq args kwargs c
     (any_permission_required ugettext has_perm perms view_func rq args kwargs c) \<and>
   guards ugettext (user_has_permission (checker_policy self) (request_user rq) action)
     view_func rq args kwargs c (require ugettext self action view_func rq args kwargs c) \<and>
   guards ugettext (user_has_any_permission (checker_policy self) (request_user rq) actions)
     view_func rq args kwargs c (require_any ugettext self actions view_func rq args kwargs c)"
  using user_passes_test_guards [of ugettext test rq view_func args kwargs c]
    user_passes_test_guards [of ugettext "\<lambda>u. has_perm u permission_name" rq view_func args kwargs c]
    user_passes_test_guards [of ugettext "any_permission_test has_perm perms" rq view_func args kwargs c]
    user_passes_test_guards [of ugettext
      "\<lambda>u. user_has_permission (checker_policy self) u action" rq view_func args kwargs c]
    user_passes_test_guards [of ugettext
      "\<lambda>u. user_has_any_permission (checker_policy self) u actions" rq view_func args kwargs c]
  by (simp add: permission_required_def any_permission_required_def require_def require_any_def
      any_permission_test_iff)

theorem decorators_guard_view_witness:
  "fst (user_passes_test (\<lambda>s. s) is_superuser view_ok (request_of carol False) [7] [] cycle0) =
     Inr (HttpResponse ''ok'') \<and>
   view_calls (snd (user_passes_test (\<lambda>s. s) is_superuser view_ok (request_of carol False) [7] []
     cycle0)) = [(request_of carol False, [7], [])] \<and>
   user_passes_test (\<lambda>s. s) is_superuser view_ok (request_of alice False) [7] [] cycle0 =
     (Inr (HttpResponseRedirect ''wagtailadmin_home''),
      \<lparr>messages = [''Sorry, you do not have permission to access this area.''],
       view_calls = []\<rparr>) \<and>
   user_passes_test (\<lambda>s. s) is_superuser view_ok (request_of alice True) [7] [] cycle0 =
     (Inl PermissionDenied, cycle0)"
proof -
  have p: "is_superuser (request_user (request_of carol False))"
    and d: "\<not> is_superuser (request_user (request_of alice False))"
       "\<not> is_superuser (request_user (request_of alice True))"
    by (simp_all add: request_of_def carol_def alice_def)
  have "guards (\<lambda>s. s) True view_ok (request_of carol False) [7] [] cycle0
     (user_passes_test (\<lambda>s. s) is_superuser view_ok (request_of carol False) [7] [] cycle0)"
    using decorators_guard_view [of "\<lambda>s. s" is_superuser "request_of carol False"
      view_ok "[7]" "[]" cycle0] p by simp
  moreover have "guards (\<lambda>s. s) False view_ok (request_of alice False) [7] [] cycle0
     (user_passes_test (\<lambda>s. s) is_superuser view_ok (request_of alice False) [7] [] cycle0)"
    using decorators_guard_view [of "\<lambda>s. s" is_superuser "request_of alice False"
      view_ok "[7]" "[]" cycle0] d by simp
  moreover have "guards (\<lambda>s. s) False view_ok (request_of alice True) [7] [] cycle0
     (user_passes_test (\<lambda>s. s) is_superuser view_ok (request_of alice True) [7] [] cycle0)"
    using decorators_guard_view [of "\<lambda>s. s" is_superuser "request_of alice True"
      view_ok "[7]" "[]" cycle0] d by simp
  ultimately show ?thesis
    by (simp add: guards_def permission_denied_def view_ok_def cycle0_def request_of_def)
qed

section \<open>The notification dispatcher\<close>

subsection \<open>Recipients\<close>

lemma unrecognized_get_recipients:
  "notification \<notin> {''submitted'', ''approved'', ''rejected''} \<Longrightarrow>
   get_recipients db st revision notification w = None"
  by (simp add: get_recipients_def)

lemma get_recipients_known:
  "get_recipients db st revision notification w = Some (recipients, w1) \<Longrightarrow>
   notification \<in> {''submitted'', ''approved'', ''rejected''}"
  by (auto simp: get_recipients_def split: if_splits)

lemma get_recipients_locale:
  "get_recipients db st revision notification w = Some (recipients, w1) \<Longrightarrow>
   active_locale w1 = active_locale w"
  by (auto simp: get_recipients_def emit_def Let_def split: if_splits)

lemma getattr_notifications_known:
  "notification \<in> {''submitted'', ''approved'', ''rejected''} \<Longrightarrow>
   getattr_notifications (get_for_user u) (notification @ ''_notifications'') =
     Inr (notifications_enabled notification u)"
  by (auto simp: getattr_notifications_def notifications_enabled_def get_for_user_def)

text \<open>
  For the three notification kinds the comprehension never raises: it is the filter on a
  non-empty email address, on the excluded user and on the notification flag.
\<close>

lemma email_recipients_of_known:
  "notification \<in> {''submitted'', ''approved'', ''rejected''} \<Longrightarrow>
   email_recipients_of notification excluded_user_id recipients =
     Inr (filter (\<lambda>u. email u \<noteq> [] \<and> pk u \<noteq> excluded_user_id \<and>
                      notifications_enabled notification u) recipients)"
  by (induction recipients) (simp_all add: getattr_notifications_known)

lemma email_recipients_of_excluded:
  "pk u = excluded_user_id \<Longrightarrow> email_recipients_of notification excluded_user_id [u] = Inr []"
  by simp

lemma email_recipients_of_no_email:
  "\<forall>u \<in> set recipients. email u = [] \<Longrightarrow>
   email_recipients_of notification excluded_user_id recipients = Inr []"
  by (induction recipients) simp_all

subsection \<open>The example site\<close>

lemmas user_defs = alice_def bob_def carol_def dave_def profile_fr_def

lemmas dispatch_defs = send_notification_def get_recipients_def getattr_notifications_def
  get_for_user_def get_preferred_language_def try_block_def send_rendered_def render_def
  send_mail_def send_mail_message_def EmailMultiAlternatives_init_def emit_def getattr_default_def truthy_def no_kwargs_def
  get_connection_def Let_def

lemma db0_revisions:
  "PageRevision_get db0 11 = Inr \<lparr>revision_id = 11, revision_page = page_p, revision_user = alice\<rparr>"
  "PageRevision_get db0 12 = Inr \<lparr>revision_id = 12, revision_page = page_p, revision_user = dave\<rparr>"
  "PageRevision_get db0 99 = Inl DoesNotExist"
  by (simp_all add: PageRevision_get_def db0_def)

lemma db0_publishers:
  "users_with_page_permission db0 page_p ''publish'' True = [bob, carol]"
  by (simp add: users_with_page_permission_def joined_rows_def permissions_of_group_def
      permission_in_def db0_def page_p_def user_defs Let_def)

lemma db0_filtered_publishers:
  "email_recipients_of ''submitted'' 0 (users_with_page_permission db0 page_p ''publish'' True) =
     Inr [bob, carol]"
  by (simp add: db0_publishers getattr_notifications_def get_for_user_def user_defs)

subsection \<open>Unrecognised kinds and empty recipient lists\<close>

text \<open>
  Claim C5, as amended. For every notification kind other than \<^verbatim>\<open>submitted\<close>,
  \<^verbatim>\<open>approved\<close> and \<^verbatim>\<open>rejected\<close>, and whenever the revision lookup succeeds,
  \<^verbatim>\<open>send_notification\<close> returns \<^verbatim>\<open>False\<close> and leaves the world as it was: no call of
  the resolver, of the renderer or of the mail backend, and no exception. The claim says
  this of every call; the lookup comes first, and a missing revision raises before the kind
  is looked at.
\<close>

theorem unrecognized_kind_returns_false:
  assumes "notification \<notin> {''submitted'', ''approved'', ''rejected''}"
    and "PageRevision_get db page_revision_id = Inr revision"
  shows "send_notification ev db st page_revision_id notification excluded_user_id w =
           (Inr False, w)"
  using assms by (simp add: send_notification_def unrecognized_get_recipients)

theorem unrecognized_kind_returns_false_witness:
  "''published'' \<notin> {''submitted'', ''approved'', ''rejected''} \<and>
   send_notification env_ok db0 st0 11 ''published'' 0 w0 = (Inr False, w0)"
proof -
  have k: "''published'' \<notin> {''submitted'', ''approved'', ''rejected''}" by simp
  show ?thesis
    using k unrecognized_kind_returns_false [OF k db0_revisions(1), of env_ok st0 0 w0] by simp
qed

text \<open>With an unrecognised kind and a revision id that does not exist, the call raises.\<close>

theorem unrecognized_kind_missing_revision_counterexample:
  "''published'' \<notin> {''submitted'', ''approved'', ''rejected''} \<and>
   send_notification env_ok db0 st0 99 ''published'' 0 w0 = (Inl DoesNotExist, w0)"
  by (simp add: send_notification_def db0_revisions)

text \<open>
  Claim C6. Whenever the filtered recipient list is empty, and in particular when the only
  resolved recipient is the excluded user or when no resolved recipient has an email
  address, \<^verbatim>\<open>send_notification\<close> returns \<^verbatim>\<open>True\<close> and hands no mail to the mail
  backend.
\<close>

theorem empty_recipients_return_true:
  assumes "PageRevision_get db page_revision_id = Inr revision"
    and "get_recipients db st revision notification w = Some (recipients, w1)"
    and "email_recipients_of notification excluded_user_id recipients = Inr [] \<or>
         (\<exists>u. recipients = [u] \<and> pk u = excluded_user_id) \<or>
         (\<forall>u \<in> set recipients. email u = [])"
  shows "fst (send_notification ev db st page_revision_id notification excluded_user_id w) =
           Inr True \<and>
         sent_mails (snd (send_notification ev db st page_revision_id notification
           excluded_user_id w)) = sent_mails w"
proof -
  have e: "email_recipients_of notification excluded_user_id recipients = Inr []"
    using assms(3) email_recipients_of_excluded email_recipients_of_no_email by blast
  have "sent_mails w1 = sent_mails w"
    using assms(2) by (auto simp: get_recipients_def Let_def sent_mails_emit_other split: if_splits)
  then show ?thesis using assms(1,2) e by (simp add: send_notification_def)
qed

theorem empty_recipients_return_true_witness:
  "PageRevision_get db0 11 =
     Inr \<lparr>revision_id = 11, revision_page = page_p, revision_user = alice\<rparr> \<and>
   get_recipients db0 st0 \<lparr>revision_id = 11, revision_page = page_p, revision_user = alice\<rparr>
     ''approved'' w0 = Some ([alice], w0) \<and>
   pk alice = 10 \<and>
   fst (send_notification env_ok db0 st0 11 ''approved'' 10 w0) = Inr True \<and>
   sent_mails (snd (send_notification env_ok db0 st0 11 ''approved'' 10 w0)) = []"
proof -
  have g: "get_recipients db0 st0 \<lparr>revision_id = 11, revision_page = page_p, revision_user = alice\<rparr>
     ''approved'' w0 = Some ([alice], w0)"
    by (simp add: get_recipients_def)
  have p: "pk alice = 10" by (simp add: alice_def)
  have d: "email_recipients_of ''approved'' 10 [alice] = Inr [] \<or>
         (\<exists>u. [alice] = [u] \<and> pk u = 10) \<or> (\<forall>u \<in> set [alice]. email u = [])"
    using p by simp
  have w: "sent_mails w0 = []" by (simp add: sent_mails_def w0_def)
  show ?thesis
    using empty_recipients_return_true [OF db0_revisions(1) g d, of env_ok] g p w db0_revisions(1)
    by simp
qed

subsection \<open>The loop\<close>

lemma send_rendered_locale:
  "active_locale (snd (snd (send_rendered ev st t r subject content l w))) = active_locale w"
  by (simp add: send_rendered_def render_def send_mail_def emit_def Let_def
      split: sum.splits prod.splits)

lemma send_rendered_subject:
  "email_subject (fst (snd (send_rendered ev st t r subject content l w))) = email_subject l"
  by (simp add: send_rendered_def render_def send_mail_def emit_def Let_def
      split: sum.splits prod.splits)

lemma try_block_locale:
  "active_locale (snd (snd (try_block ev st notification r l w))) = active_locale w"
  by (simp add: try_block_def render_def emit_def Let_def send_rendered_locale
      split: sum.splits prod.splits)

lemma try_block_subject_kept:
  "email_subject l = Some s \<Longrightarrow>
   \<exists>s'. email_subject (fst (snd (try_block ev st notification r l w))) = Some s'"
  by (simp add: try_block_def render_def emit_def Let_def send_rendered_subject
      split: sum.splits prod.splits)

lemma try_block_success_subject:
  "fst (try_block ev st notification r l w) = Inr u \<Longrightarrow>
   \<exists>s'. email_subject (fst (snd (try_block ev st notification r l w))) = Some s'"
  by (auto simp add: try_block_def render_def emit_def Let_def send_rendered_subject
      split: sum.splits prod.splits)

lemma try_block_unbound_cause:
  "fst (try_block ev st notification r l w) = Inl e \<Longrightarrow>
   email_subject (fst (snd (try_block ev st notification r l w))) = None \<Longrightarrow>
   render_to_string ev (''wagtailadmin/notifications/'' @ notification @ ''_subject.txt'')
     ((ctx l)\<lparr>ctx_user := Some r\<rparr>) (get_preferred_language (wagtail_userprofile r)) = Inl e"
  by (auto simp add: try_block_def render_def emit_def Let_def send_rendered_subject
      split: sum.splits prod.splits)

text \<open>The locale that was active before the dispatch is active after it.\<close>

lemma send_loop_locale:
  "active_locale (snd (send_loop ev st notification rs l w)) = active_locale w"
proof (induction rs arbitrary: l w)
  case Nil
  show ?case by simp
next
  case (Cons r rs)
  obtain res l1 w1 where t: "try_block ev st notification r l w = (res, l1, w1)"
    by (cases "try_block ev st notification r l w") auto
  have w1: "active_locale w1 = active_locale w"
    using try_block_locale [of ev st notification r l w] t by simp
  show ?case
    using t w1 Cons.IH by (simp add: emit_def split: sum.splits option.splits)
qed

lemma send_notification_locale:
  "active_locale (snd (send_notification ev db st page_revision_id notification excluded_user_id w))
     = active_locale w"
proof -
  have "\<And>rs l w1. active_locale (snd (case send_loop ev st notification rs l w1 of
           (Inl e, w2) \<Rightarrow> (Inl e, w2)
         | (Inr l', w2) \<Rightarrow> (Inr (sent_count l' = length rs), w2))) = active_locale w1"
    using send_loop_locale [of ev st notification]
    by (auto split: prod.splits sum.splits) (metis snd_conv)+
  then show ?thesis
    by (auto simp: send_notification_def get_recipients_locale
        split: sum.splits option.splits prod.splits)
qed

text \<open>
  The only exception that leaves the loop is the \<^verbatim>\<open>UnboundLocalError\<close> of the handler.
  It cannot occur once \<^verbatim>\<open>email_subject\<close> is bound, nor when the subject template always
  renders.
\<close>

lemma send_loop_raises_only:
  "fst (send_loop ev st notification rs l w) = Inl e \<Longrightarrow> e = UnboundLocalError ''email_subject''"
proof (induction rs arbitrary: l w)
  case Nil
  then show ?case by simp
next
  case (Cons r rs)
  obtain res l1 w1 where t: "try_block ev st notification r l w = (res, l1, w1)"
    by (cases "try_block ev st notification r l w") auto
  show ?case
    using t Cons.prems Cons.IH by (auto split: sum.splits option.splits)
qed

lemma send_loop_bound_returns:
  "email_subject l = Some s \<Longrightarrow> \<exists>l'. fst (send_loop ev st notification rs l w) = Inr l'"
proof (induction rs arbitrary: l w s)
  case Nil
  show ?case by simp
next
  case (Cons r rs)
  obtain res l1 w1 where t: "try_block ev st notification r l w = (res, l1, w1)"
    by (cases "try_block ev st notification r l w") auto
  obtain s' where s': "email_subject l1 = Some s'"
    using try_block_subject_kept [OF Cons.prems, of ev st notification r w] t by auto
  show ?case
    using t s' Cons.IH [OF s'] by (simp split: sum.splits)
qed

lemma send_loop_subject_renders:
  assumes "\<forall>c locale. \<exists>s.
     render_to_string ev (''wagtailadmin/notifications/'' @ notification @ ''_subject.txt'')
       c locale = Inr s"
  shows "\<exists>l'. fst (send_loop ev st notification rs l w) = Inr l'"
proof (cases rs)
  case Nil
  then show ?thesis by simp
next
  case (Cons r rest)
  obtain res l1 w1 where t: "try_block ev st notification r l w = (res, l1, w1)"
    by (cases "try_block ev st notification r l w") auto
  have "\<exists>s. email_subject l1 = Some s"
  proof (cases res)
    case (Inr u)
    then show ?thesis using try_block_success_subject [of ev st notification r l w u] t by simp
  next
    case (Inl e)
    show ?thesis
    proof (cases "email_subject l1")
      case None
      then have "render_to_string ev
          (''wagtailadmin/notifications/'' @ notification @ ''_subject.txt'')
          ((ctx l)\<lparr>ctx_user := Some r\<rparr>) (get_preferred_language (wagtail_userprofile r)) = Inl e"
        using try_block_unbound_cause [of ev st notification r l w e] t Inl by simp
      with assms show ?thesis by (metis sum.distinct(1))
    next
      case (Some s)
      then show ?thesis by simp
    qed
  qed
  then obtain s where s: "email_subject l1 = Some s" by blast
  show ?thesis
    using Cons t s send_loop_bound_returns [OF s, of ev st notification rest]
    by (simp split: sum.splits)
qed

text \<open>
  The same for the whole dispatch, for a revision that has a submitter, as every revision
  of the model has: past the lookup nothing but that \<^verbatim>\<open>UnboundLocalError\<close> is raised.
  (A revision without a submitter is not in the model; there the comprehension over
  \<^verbatim>\<open>[revision.user]\<close> fails before the loop is reached.)
\<close>

lemma send_notification_raises_only:
  assumes "PageRevision_get db page_revision_id = Inr revision"
    and "fst (send_notification ev db st page_revision_id notification excluded_user_id w) = Inl e"
  shows "e = UnboundLocalError ''email_subject''"
proof (cases "get_recipients db st revision notification w")
  case None
  with assms show ?thesis by (simp add: send_notification_def)
next
  case (Some a)
  obtain recipients w1 where a: "a = (recipients, w1)" by (cases a)
  have k: "notification \<in> {''submitted'', ''approved'', ''rejected''}"
    using Some a get_recipients_known by blast
  let ?rs = "filter (\<lambda>u. email u \<noteq> [] \<and> pk u \<noteq> excluded_user_id \<and>
                      notifications_enabled notification u) recipients"
  let ?l0 = "\<lparr>sent_count = 0, email_subject = None,
             ctx = \<lparr>ctx_revision = revision, ctx_settings = st, ctx_user = None\<rparr>\<rparr>"
  have "fst (send_loop ev st notification ?rs ?l0 w1) = Inl e"
    using assms Some a
    by (simp add: send_notification_def email_recipients_of_known [OF k]
        split: if_splits sum.splits prod.splits)
  then show ?thesis by (rule send_loop_raises_only)
qed

lemma send_notification_returns_when_subject_renders:
  assumes "PageRevision_get db page_revision_id = Inr revision"
    and "\<forall>c locale. \<exists>s.
     render_to_string ev (''wagtailadmin/notifications/'' @ notification @ ''_subject.txt'')
       c locale = Inr s"
  shows "\<exists>b. fst (send_notification ev db st page_revision_id notification excluded_user_id w)
           = Inr b"
proof (cases "get_recipients db st revision notification w")
  case None
  with assms(1) show ?thesis by (auto simp: send_notification_def)
next
  case (Some a)
  obtain recipients w1 where a: "a = (recipients, w1)" by (cases a)
  have k: "notification \<in> {''submitted'', ''approved'', ''rejected''}"
    using Some a get_recipients_known by blast
  let ?rs = "filter (\<lambda>u. email u \<noteq> [] \<and> pk u \<noteq> excluded_user_id \<and>
                      notifications_enabled notification u) recipients"
  let ?l0 = "\<lparr>sent_count = 0, email_subject = None,
             ctx = \<lparr>ctx_revision = revision, ctx_settings = st, ctx_user = None\<rparr>\<rparr>"
  obtain l' where "fst (send_loop ev st notification ?rs ?l0 w1) = Inr l'"
    using send_loop_subject_renders [OF assms(2)] by blast
  then show ?thesis
    using assms(1) Some a
    by (auto simp: send_notification_def email_recipients_of_known [OF k]
        split: sum.splits prod.splits)
qed

text \<open>
  When the dispatch returns, it returns \<^verbatim>\<open>True\<close> exactly when the mail backend accepted
  as many mails as there are filtered recipients.
\<close>

lemma send_rendered_delivered:
  "send_rendered ev st t r subject content l w = (res, l1, w1) \<Longrightarrow>
   sent_count l1 + delivered ev w = sent_count l + delivered ev w1"
  by (auto simp: send_rendered_def render_def send_mail_def Let_def delivered_simps
      split: sum.splits prod.splits if_splits)

lemma try_block_delivered:
  "try_block ev st notification r l w = (res, l1, w1) \<Longrightarrow>
   sent_count l1 + delivered ev w = sent_count l + delivered ev w1"
  by (auto simp: try_block_def render_def Let_def delivered_simps
      dest!: send_rendered_delivered split: sum.splits prod.splits)

lemma send_loop_delivered:
  "send_loop ev st notification rs l w = (Inr l', w') \<Longrightarrow>
   sent_count l' + delivered ev w = sent_count l + delivered ev w'"
proof (induction rs arbitrary: l w)
  case Nil
  then show ?case by simp
next
  case (Cons r rs)
  obtain res l1 w1 where t: "try_block ev st notification r l w = (res, l1, w1)"
    by (cases "try_block ev st notification r l w") auto
  note d = try_block_delivered [OF t]
  show ?case
  proof (cases res)
    case (Inr u)
    then have "send_loop ev st notification rs l1 w1 = (Inr l', w')"
      using Cons.prems t by simp
    from Cons.IH [OF this] d show ?thesis by simp
  next
    case (Inl e)
    then obtain s where s: "email_subject l1 = Some s"
      and r: "send_loop ev st notification rs l1 (emit (Log s (email r)) w1) = (Inr l', w')"
      using Cons.prems t by (auto split: option.splits)
    from Cons.IH [OF r] d show ?thesis by (simp add: delivered_simps)
  qed
qed

lemma send_notification_counts_deliveries:
  assumes "PageRevision_get db page_revision_id = Inr revision"
    and "get_recipients db st revision notification w = Some (recipients, w1)"
    and "send_notification ev db st page_revision_id notification excluded_user_id w = (Inr b, w')"
  shows "b \<longleftrightarrow> delivered ev w' = delivered ev w +
           length (filter (\<lambda>u. email u \<noteq> [] \<and> pk u \<noteq> excluded_user_id \<and>
                               notifications_enabled notification u) recipients)"
proof -
  let ?rs = "filter (\<lambda>u. email u \<noteq> [] \<and> pk u \<noteq> excluded_user_id \<and>
                      notifications_enabled notification u) recipients"
  let ?l0 = "\<lparr>sent_count = 0, email_subject = None,
             ctx = \<lparr>ctx_revision = revision, ctx_settings = st, ctx_user = None\<rparr>\<rparr>"
  have k: "notification \<in> {''submitted'', ''approved'', ''rejected''}"
    using assms(2) get_recipients_known by blast
  have w1: "delivered ev w1 = delivered ev w"
    using assms(2) by (auto simp: get_recipients_def Let_def delivered_simps split: if_splits)
  show ?thesis
  proof (cases "?rs = []")
    case True
    then show ?thesis
      using assms w1 by (simp add: send_notification_def email_recipients_of_known [OF k])
  next
    case False
    then obtain l' where l: "send_loop ev st notification ?rs ?l0 w1 = (Inr l', w')"
      and b: "b = (sent_count l' = length ?rs)"
      using assms
      by (auto simp: send_notification_def email_recipients_of_known [OF k]
          split: sum.splits prod.splits)
    from send_loop_delivered [OF l] w1 b show ?thesis by auto
  qed
qed

text \<open>Once \<^verbatim>\<open>email_subject\<close> is bound, the \<^verbatim>\<open>try\<close> block is entered for every recipient.\<close>

lemma send_rendered_attempts:
  "attempts notification (snd (snd (send_rendered ev st
      (''wagtailadmin/notifications/'' @ notification @ ''.html'') r subject content l w))) =
   attempts notification w"
  by (simp add: send_rendered_def render_def send_mail_def Let_def attempts_def
      render_locales_simps split: sum.splits prod.splits)

lemma try_block_attempts:
  "attempts notification (snd (snd (try_block ev st notification r l w))) =
   Suc (attempts notification w)"
proof -
  have a: "\<And>w x. attempts notification (w\<lparr>active_locale := x\<rparr>) = attempts notification w"
    by (simp add: attempts_def render_locales_simps)
  have s: "\<And>w loc c. attempts notification
       (emit (Render (''wagtailadmin/notifications/'' @ notification @ ''_subject.txt'') loc c) w)
       = Suc (attempts notification w)"
    by (simp add: attempts_def render_locales_simps)
  have t: "\<And>w loc c. attempts notification
       (emit (Render (''wagtailadmin/notifications/'' @ notification @ ''.txt'') loc c) w)
       = attempts notification w"
    by (simp add: attempts_def render_locales_simps)
  show ?thesis
    by (simp add: try_block_def render_def Let_def a s t send_rendered_attempts
        del: append.simps split: sum.splits prod.splits)
qed

lemma send_loop_attempts_all:
  "email_subject l = Some s \<Longrightarrow>
   attempts notification (snd (send_loop ev st notification rs l w)) =
     attempts notification w + length rs"
proof (induction rs arbitrary: l w s)
  case Nil
  show ?case by simp
next
  case (Cons r rs)
  obtain res l1 w1 where t: "try_block ev st notification r l w = (res, l1, w1)"
    by (cases "try_block ev st notification r l w") auto
  obtain s' where s': "email_subject l1 = Some s'"
    using try_block_subject_kept [OF Cons.prems, of ev st notification r w] t by auto
  have a: "attempts notification w1 = Suc (attempts notification w)"
    using try_block_attempts [of notification ev st r l w] t by simp
  have g: "\<And>x y. attempts notification (emit (Log x y) w1) = attempts notification w1"
    by (simp add: attempts_def render_locales_simps)
  show ?case
    using t s' a g Cons.IH [OF s'] by (simp split: sum.splits)
qed

text \<open>
  Every mail of the loop goes to one of the filtered recipients, so a submission
  notification only goes to active users.
\<close>

lemma send_rendered_sent:
  "m \<in> set (sent_mails (snd (snd (send_rendered ev st t r subject content l w)))) \<Longrightarrow>
   mail_to m = [email r] \<or> m \<in> set (sent_mails w)"
  by (auto simp: send_rendered_def render_def send_mail_def Let_def sent_mails_emit_Send
      sent_mails_emit_other split: sum.splits prod.splits if_splits dest: send_mail_message_to)

lemma try_block_sent:
  "m \<in> set (sent_mails (snd (snd (try_block ev st notification r l w)))) \<Longrightarrow>
   mail_to m = [email r] \<or> m \<in> set (sent_mails w)"
  by (auto simp: try_block_def render_def Let_def sent_mails_emit_other sent_mails_locale
      split: sum.splits prod.splits dest!: send_rendered_sent)

lemma send_loop_sent:
  "m \<in> set (sent_mails (snd (send_loop ev st notification rs l w))) \<Longrightarrow>
   m \<in> set (sent_mails w) \<or> (\<exists>u \<in> set rs. mail_to m = [email u])"
proof (induction rs arbitrary: l w)
  case Nil
  then show ?case by simp
next
  case (Cons r rs)
  obtain res l1 w1 where t: "try_block ev st notification r l w = (res, l1, w1)"
    by (cases "try_block ev st notification r l w") auto
  have w1: "\<And>x. x \<in> set (sent_mails w1) \<Longrightarrow> mail_to x = [email r] \<or> x \<in> set (sent_mails w)"
    using try_block_sent [of _ ev st notification r l w] t by simp
  show ?case
  proof (cases res)
    case (Inr u)
    then have "m \<in> set (sent_mails (snd (send_loop ev st notification rs l1 w1)))"
      using Cons.prems t by simp
    from Cons.IH [OF this] w1 show ?thesis by auto
  next
    case (Inl e)
    show ?thesis
    proof (cases "email_subject l1")
      case None
      then show ?thesis using Cons.prems t Inl w1 by auto
    next
      case (Some s)
      then have "m \<in> set (sent_mails (snd (send_loop ev st notification rs l1
                   (emit (Log s (email r)) w1))))"
        using Cons.prems t Inl by simp
      from Cons.IH [OF this] w1 show ?thesis by (auto simp: sent_mails_emit_other)
    qed
  qed
qed

lemma submitted_mail_goes_to_active_users:
  assumes "m \<in> set (sent_mails (snd (send_notification ev db st page_revision_id
             ''submitted'' excluded_user_id w)))"
  shows "m \<in> set (sent_mails w) \<or>
         (\<exists>u \<in> set (users db). is_active u \<and> mail_to m = [email u])"
proof (cases "PageRevision_get db page_revision_id")
  case (Inl e)
  with assms show ?thesis by (simp add: send_notification_def)
next
  case (Inr revision)
  let ?incl = "getattr_default (WAGTAILADMIN_NOTIFICATION_INCLUDE_SUPERUSERS st) True"
  let ?recipients = "users_with_page_permission db (revision_page revision) ''publish'' ?incl"
  let ?w1 = "emit (Resolve (revision_page revision) ''publish'' ?incl) w"
  let ?rs = "filter (\<lambda>u. email u \<noteq> [] \<and> pk u \<noteq> excluded_user_id \<and>
                      notifications_enabled ''submitted'' u) ?recipients"
  let ?l0 = "\<lparr>sent_count = 0, email_subject = None,
             ctx = \<lparr>ctx_revision = revision, ctx_settings = st, ctx_user = None\<rparr>\<rparr>"
  have g: "get_recipients db st revision ''submitted'' w = Some (?recipients, ?w1)"
    by (simp add: get_recipients_def Let_def)
  have e: "email_recipients_of ''submitted'' excluded_user_id ?recipients = Inr ?rs"
    by (rule email_recipients_of_known) simp
  have "m \<in> set (sent_mails ?w1) \<or>
        m \<in> set (sent_mails (snd (send_loop ev st ''submitted'' ?rs ?l0 ?w1)))"
    using assms Inr
    by (simp add: send_notification_def g e split: if_splits sum.splits prod.splits)
  then have "m \<in> set (sent_mails w) \<or> (\<exists>u \<in> set ?rs. mail_to m = [email u])"
    using send_loop_sent [of m ev st "''submitted''" ?rs ?l0 ?w1]
    by (auto simp: sent_mails_emit_other)
  then show ?thesis by (auto simp: set_users_with_page_permission)
qed

subsection \<open>Where the code leaves the claims\<close>

text \<open>
  Claim C1 says that, once the revision is found, every exception raised while rendering or
  sending for a recipient is caught and logged, and that the call returns \<^verbatim>\<open>False\<close>
  instead of raising. The code does not do so when the subject template fails for the first
  recipient: the handler reads \<^verbatim>\<open>email_subject\<close> before it was ever assigned, and the
  \<^verbatim>\<open>UnboundLocalError\<close> leaves \<^verbatim>\<open>send_notification\<close>. Here the revision is found, the
  approval notification goes to Alice, and the subject template does not render.
\<close>

theorem unbound_subject_escapes_handler:
  "PageRevision_get db0 11 =
     Inr \<lparr>revision_id = 11, revision_page = page_p, revision_user = alice\<rparr> \<and>
   fst (send_notification env_bad db0 st0 11 ''approved'' 0 w0) =
     Inl (UnboundLocalError ''email_subject'') \<and>
   fst (send_notification env_bad db0 st0 11 ''approved'' 0 w0) \<noteq> Inr False"
  by (simp add: dispatch_defs db0_revisions user_defs st0_def w0_def env_bad_def)

text \<open>
  Claim C2 says that the subject, the body and, when HTML notifications are on, the HTML
  body are rendered in the recipient's preferred language. The code renders the HTML body
  after the \<^verbatim>\<open>with override(...)\<close> block has been left: Alice prefers French, the
  subject and the text body are rendered in French, and the HTML body in the English
  locale of the caller, and so it is sent.
\<close>

theorem html_body_rendered_in_ambient_locale:
  "get_preferred_language (wagtail_userprofile alice) = ''fr'' \<and> active_locale w0 = ''en'' \<and>
   render_locales (snd (send_notification env_ok db0 st_html 11 ''approved'' 0 w0)) =
     [(''wagtailadmin/notifications/approved_subject.txt'', ''fr''),
      (''wagtailadmin/notifications/approved.txt'', ''fr''),
      (''wagtailadmin/notifications/approved.html'', ''en'')] \<and>
   map mail_alternatives (sent_mails (snd (send_notification env_ok db0 st_html 11 ''approved'' 0 w0)))
     = [[(''en:wagtailadmin/notifications/approved.html'', ''text/html'')]]"
  by (simp add: dispatch_defs db0_revisions user_defs st_html_def st0_def w0_def env_ok_def
      render_locales_def sent_mails_def)

text \<open>
  Claim C3 says that a user whose active flag is unset is never a recipient, for all three
  kinds. The code filters on the active flag in \<^verbatim>\<open>users_with_page_permission\<close> only;
  for \<^verbatim>\<open>approved\<close> and \<^verbatim>\<open>rejected\<close> the submitter is taken as he is. Dave is inactive
  and submitted revision 12, and the approval mail is sent to him.
\<close>

theorem inactive_submitter_is_notified:
  "\<not> is_active dave \<and>
   map mail_to (sent_mails (snd (send_notification env_ok db0 st0 12 ''approved'' 0 w0))) =
     [[''dave@example.com'']]"
  by (simp add: dispatch_defs db0_revisions user_defs st0_def w0_def env_ok_def sent_mails_def)

text \<open>
  Claim C4 says that a failure for one recipient does not prevent the sends to the others.
  The code aborts the loop when the subject template fails for the first recipient: Bob and
  Carol are the filtered recipients, the subject fails for Bob only, the
  \<^verbatim>\<open>UnboundLocalError\<close> of the handler ends the call, the \<^verbatim>\<open>try\<close> block is entered
  once, and no mail is sent to Carol.
\<close>

theorem subject_failure_aborts_remaining_sends:
  "email_recipients_of ''submitted'' 0 (users_with_page_permission db0 page_p ''publish'' True) =
     Inr [bob, carol] \<and>
   fst (send_notification env_bad_bob db0 st0 11 ''submitted'' 0 w0) =
     Inl (UnboundLocalError ''email_subject'') \<and>
   attempts ''submitted'' (snd (send_notification env_bad_bob db0 st0 11 ''submitted'' 0 w0)) = 1 \<and>
   sent_mails (snd (send_notification env_bad_bob db0 st0 11 ''submitted'' 0 w0)) = []"
  by (simp add: dispatch_defs db0_revisions db0_publishers db0_filtered_publishers user_defs
      st0_def w0_def env_bad_bob_def sent_mails_def attempts_def render_locales_def)

end
